theory Spec2Isabelle
  imports Main "HOL-Library.AList"
begin

section \<open>Python values\<close>

text \<open>
  The program is \<^verbatim>\<open>src/app.py\<close>. Its data comes from \<^verbatim>\<open>json.loads\<close>, so a value is a
  JSON value as Python holds it: \<^verbatim>\<open>None\<close>, a bool, an int, a str, a list, or a dict.
  A dict is its list of items in insertion order (Python keeps that order, and keys are
  distinct in every dict Python builds); a lookup takes the first item with the key.
  A string stands for a Python str of ASCII characters: \<open>lower\<close>, \<open>title\<close> and
  \<open>strip\<close> below are Python's methods on the code points below 128, and the model says
  nothing about other text. JSON numbers with a fraction (Python floats) are not
  represented.
\<close>

datatype json =
    JNull
  | JBool bool
  | JInt int
  | JStr string
  | JArr "json list"
  | JObj "(string \<times> json) list"

datatype py_error = AttributeError | KeyError | TypeError

subsection \<open>\<^verbatim>\<open>str.lower\<close>, \<^verbatim>\<open>str.title\<close>, \<^verbatim>\<open>str.strip\<close>\<close>

definition is_upper :: "char \<Rightarrow> bool" where
  "is_upper c = (65 \<le> (of_char c :: nat) \<and> (of_char c :: nat) \<le> 90)"

definition is_lower :: "char \<Rightarrow> bool" where
  "is_lower c = (97 \<le> (of_char c :: nat) \<and> (of_char c :: nat) \<le> 122)"

definition is_cased :: "char \<Rightarrow> bool" where
  "is_cased c = (is_upper c \<or> is_lower c)"

definition lower_char :: "char \<Rightarrow> char" where
  "lower_char c = (if is_upper c then char_of ((of_char c :: nat) + 32) else c)"

definition upper_char :: "char \<Rightarrow> char" where
  "upper_char c = (if is_lower c then char_of ((of_char c :: nat) - 32) else c)"

definition lower :: "string \<Rightarrow> string" where
  "lower s = map lower_char s"

text \<open>
  \<^verbatim>\<open>str.title\<close>: a character that follows a cased character is lower-cased, any other
  character is title-cased (upper-cased, in ASCII).
\<close>

fun title_from :: "bool \<Rightarrow> string \<Rightarrow> string" where
  "title_from previous_is_cased [] = []"
| "title_from previous_is_cased (c # cs) =
     (if previous_is_cased then lower_char c else upper_char c) # title_from (is_cased c) cs"

definition title :: "string \<Rightarrow> string" where
  "title s = title_from False s"

text \<open>The ASCII characters for which \<^verbatim>\<open>str.isspace\<close> holds: 9 to 13, 28 to 31 and 32.\<close>

definition is_space :: "char \<Rightarrow> bool" where
  "is_space c = (let n = (of_char c :: nat) in (9 \<le> n \<and> n \<le> 13) \<or> (28 \<le> n \<and> n \<le> 32))"

definition strip :: "string \<Rightarrow> string" where
  "strip s = rev (dropWhile is_space (rev (dropWhile is_space s)))"

subsection \<open>\<^verbatim>\<open>str()\<close> and \<^verbatim>\<open>repr()\<close>, as an f-string applies them\<close>

definition digit_char :: "nat \<Rightarrow> char" where
  "digit_char d = char_of (48 + d)"

function digits_of :: "nat \<Rightarrow> string" where
  "digits_of n = (if n < 10 then [digit_char n] else digits_of (n div 10) @ [digit_char (n mod 10)])"
  by pat_completeness auto
termination
  by (relation "measure (\<lambda>n. n)") auto

definition str_int :: "int \<Rightarrow> string" where
  "str_int i = (if i < 0 then CHR ''-'' # digits_of (nat (- i)) else digits_of (nat i))"

definition hex_digit :: "nat \<Rightarrow> char" where
  "hex_digit d = (if d < 10 then char_of (48 + d) else char_of (87 + d))"

definition escape_char :: "char \<Rightarrow> char \<Rightarrow> string" where
  "escape_char quote c =
     (let n = (of_char c :: nat) in
      if c = quote \<or> c = CHR 0x5C then [CHR 0x5C, c]
      else if c = CHR 0x09 then [CHR 0x5C, CHR ''t'']
      else if c = CHR 0x0A then [CHR 0x5C, CHR ''n'']
      else if c = CHR 0x0D then [CHR 0x5C, CHR ''r'']
      else if n < 32 \<or> n = 127 then [CHR 0x5C, CHR ''x'', hex_digit (n div 16), hex_digit (n mod 16)]
      else [c])"

definition repr_str :: "string \<Rightarrow> string" where
  "repr_str s =
     (let quote = (if CHR 0x27 \<in> set s \<and> CHR 0x22 \<notin> set s then CHR 0x22 else CHR 0x27)
      in quote # concat (map (escape_char quote) s) @ [quote])"

fun join :: "string \<Rightarrow> string list \<Rightarrow> string" where
  "join sep [] = []"
| "join sep [x] = x"
| "join sep (x # y # ys) = x @ sep @ join sep (y # ys)"

fun repr :: "json \<Rightarrow> string" where
  "repr JNull = ''None''"
| "repr (JBool b) = (if b then ''True'' else ''False'')"
| "repr (JInt i) = str_int i"
| "repr (JStr s) = repr_str s"
| "repr (JArr xs) = ''['' @ join '', '' (map repr xs) @ '']''"
| "repr (JObj kvs) =
     ''{'' @ join '', '' (map (\<lambda>kv. repr_str (fst kv) @ '': '' @ repr (snd kv)) kvs) @ ''}''"

fun str :: "json \<Rightarrow> string" where
  "str (JStr s) = s"
| "str v = repr v"

subsection \<open>Truth value, iteration, subscription\<close>

fun truthy :: "json \<Rightarrow> bool" where
  "truthy JNull = False"
| "truthy (JBool b) = b"
| "truthy (JInt i) = (i \<noteq> 0)"
| "truthy (JStr s) = (s \<noteq> [])"
| "truthy (JArr xs) = (xs \<noteq> [])"
| "truthy (JObj kvs) = (kvs \<noteq> [])"

text \<open>
  What \<^verbatim>\<open>for x in v\<close> and \<^verbatim>\<open>list.extend(v)\<close> go through: the elements of a list, the keys
  of a dict, the characters of a str; anything else is not iterable.
\<close>

fun iter :: "json \<Rightarrow> py_error + json list" where
  "iter (JArr xs) = Inr xs"
| "iter (JObj kvs) = Inr (map (\<lambda>kv. JStr (fst kv)) kvs)"
| "iter (JStr s) = Inr (map (\<lambda>c. JStr [c]) s)"
| "iter v = Inl TypeError"

text \<open>\<^verbatim>\<open>v[k]\<close> for a str key \<open>k\<close>.\<close>

fun getitem :: "json \<Rightarrow> string \<Rightarrow> py_error + json" where
  "getitem (JObj kvs) k = (case map_of kvs k of None \<Rightarrow> Inl KeyError | Some v \<Rightarrow> Inr v)"
| "getitem v k = Inl TypeError"

text \<open>\<^verbatim>\<open>v.get(k, dflt)\<close>: only a dict has the method.\<close>

fun get :: "json \<Rightarrow> string \<Rightarrow> json \<Rightarrow> py_error + json" where
  "get (JObj kvs) k dflt = (case map_of kvs k of None \<Rightarrow> Inr dflt | Some v \<Rightarrow> Inr v)"
| "get v k dflt = Inl AttributeError"

text \<open>\<^verbatim>\<open>v.lower()\<close>: only a str has the method.\<close>

fun lower_method :: "json \<Rightarrow> py_error + string" where
  "lower_method (JStr s) = Inr (lower s)"
| "lower_method v = Inl AttributeError"

text \<open>
  \<^verbatim>\<open>v += s\<close> for a str \<open>s\<close>: a str is concatenated, a list is extended by the characters
  of \<open>s\<close>, nothing else supports the operator.
\<close>

fun iadd_str :: "json \<Rightarrow> string \<Rightarrow> py_error + json" where
  "iadd_str (JStr old) s = Inr (JStr (old @ s))"
| "iadd_str (JArr xs) s = Inr (JArr (xs @ map (\<lambda>c. JStr [c]) s))"
| "iadd_str v s = Inl TypeError"

section \<open>The Aggregator: \<^verbatim>\<open>aggregate_ingredients\<close>\<close>

text \<open>
  One round of the loop body (lines 133 to 138, and 141 to 145): \<open>aggregated\<close> is the dict
  built so far. \<open>AList.update\<close> is the dict's item assignment: it replaces the value of a
  key in place and appends a new key at the end.
\<close>

definition aggregate_item :: "(string \<times> json) list \<Rightarrow> json \<Rightarrow> py_error + (string \<times> json) list" where
  "aggregate_item aggregated item =
     (case getitem item ''item'' of Inl e \<Rightarrow> Inl e | Inr i \<Rightarrow>
     (case lower_method i of Inl e \<Rightarrow> Inl e | Inr name \<Rightarrow>
     (case map_of aggregated name of
        Some old \<Rightarrow>
          (case getitem item ''quantity'' of Inl e \<Rightarrow> Inl e | Inr q \<Rightarrow>
          (case iadd_str old ('' + '' @ str q) of Inl e \<Rightarrow> Inl e | Inr new \<Rightarrow>
             Inr (AList.update name new aggregated)))
      | None \<Rightarrow>
          (case getitem item ''quantity'' of Inl e \<Rightarrow> Inl e | Inr q \<Rightarrow>
             Inr (AList.update name q aggregated)))))"

fun aggregate_loop :: "(string \<times> json) list \<Rightarrow> json list \<Rightarrow> py_error + (string \<times> json) list" where
  "aggregate_loop aggregated [] = Inr aggregated"
| "aggregate_loop aggregated (item # items) =
     (case aggregate_item aggregated item of Inl e \<Rightarrow> Inl e
      | Inr aggregated' \<Rightarrow> aggregate_loop aggregated' items)"

text \<open>Lines 148 and 149: the list of output entries of one dict.\<close>

definition final_list :: "(string \<times> json) list \<Rightarrow> json list" where
  "final_list aggregated =
     map (\<lambda>kv. JObj [(''item'', JStr (title (fst kv))), (''quantity'', snd kv)]) aggregated"

definition aggregate_ingredients :: "json \<Rightarrow> py_error + json" where
  "aggregate_ingredients categorized_ingredients =
     (case get categorized_ingredients ''pantry'' (JArr []) of Inl e \<Rightarrow> Inl e | Inr p \<Rightarrow>
     (case iter p of Inl e \<Rightarrow> Inl e | Inr pantry_items \<Rightarrow>
     (case aggregate_loop [] pantry_items of Inl e \<Rightarrow> Inl e | Inr aggregated_pantry \<Rightarrow>
     (case get categorized_ingredients ''perishables'' (JArr []) of Inl e \<Rightarrow> Inl e | Inr q \<Rightarrow>
     (case iter q of Inl e \<Rightarrow> Inl e | Inr perishables_items \<Rightarrow>
     (case aggregate_loop [] perishables_items of Inl e \<Rightarrow> Inl e | Inr aggregated_perishables \<Rightarrow>
        Inr (JObj [(''pantry'', JArr (final_list aggregated_pantry)),
                   (''perishables'', JArr (final_list aggregated_perishables))])))))))"

section \<open>The run: the handler of the button "Generate Grocery List"\<close>

text \<open>
  \<^verbatim>\<open>call_gemini_api\<close> talks to the network. The model takes what each call returns as an
  input: \<open>JNull\<close> is \<^verbatim>\<open>None\<close>, the value the function returns after it reported an error.
  A dish of the meal plan comes with the two answers the run gets for it, to the recipe
  prompt and to \<^verbatim>\<open>extract_ingredients\<close> (asked for only when the loop reaches the call);
  \<open>categorized_reply\<close> is the answer to the one call made by
  \<^verbatim>\<open>categorize_and_normalize_ingredients\<close>. What the handler writes to the page is left
  out; the result of a run says which branch ended it.
\<close>

record dish =
  name :: string
  servings :: int

type_synonym dish_run = "dish \<times> json \<times> json"

datatype run_result =
    EmptyInput
  | NoIngredientsExtracted
  | CategorizationFailure
  | Done json
  | Uncaught py_error

text \<open>Line 106: one line of the prompt for each accumulated ingredient.\<close>

definition prompt_line :: "json \<Rightarrow> py_error + string" where
  "prompt_line item =
     (case getitem item ''item'' of Inl e \<Rightarrow> Inl e | Inr i \<Rightarrow>
     (case getitem item ''quantity'' of Inl e \<Rightarrow> Inl e | Inr q \<Rightarrow>
        Inr (''- '' @ str i @ '': '' @ str q)))"

fun prompt_lines :: "json list \<Rightarrow> py_error + string list" where
  "prompt_lines [] = Inr []"
| "prompt_lines (item # items) =
     (case prompt_line item of Inl e \<Rightarrow> Inl e | Inr l \<Rightarrow>
     (case prompt_lines items of Inl e \<Rightarrow> Inl e | Inr ls \<Rightarrow> Inr (l # ls)))"

text \<open>
  The prompt is built, which fails on an ingredient that has no \<^verbatim>\<open>item\<close> or no
  \<^verbatim>\<open>quantity\<close>, and the answer of the call is returned as it is.
\<close>

definition categorize_and_normalize_ingredients :: "json \<Rightarrow> json list \<Rightarrow> py_error + json" where
  "categorize_and_normalize_ingredients categorized_reply ingredient_list_json =
     (case prompt_lines ingredient_list_json of Inl e \<Rightarrow> Inl e
      | Inr ls \<Rightarrow> Inr categorized_reply)"

text \<open>Lines 212 to 241: the loop over the valid dishes.\<close>

fun dish_loop :: "dish_run list \<Rightarrow> json list \<Rightarrow> py_error + json list" where
  "dish_loop [] total_ingredients_extracted = Inr total_ingredients_extracted"
| "dish_loop ((dish_entry, recipe_content, ingredients_for_dish) # rest)
       total_ingredients_extracted =
     (if truthy recipe_content then
        (if truthy ingredients_for_dish then
           (case iter ingredients_for_dish of Inl e \<Rightarrow> Inl e
            | Inr extracted \<Rightarrow> dish_loop rest (total_ingredients_extracted @ extracted))
         else dish_loop rest total_ingredients_extracted)
      else dish_loop rest total_ingredients_extracted)"

definition valid_dish :: "dish_run \<Rightarrow> bool" where
  "valid_dish d = (strip (name (fst d)) \<noteq> [])"

text \<open>Lines 204 to 276.\<close>

definition generate_grocery_list :: "dish_run list \<Rightarrow> json \<Rightarrow> run_result" where
  "generate_grocery_list dishes categorized_reply =
     (let valid_dishes = filter valid_dish dishes in
      if valid_dishes = [] then EmptyInput
      else
        (case dish_loop valid_dishes [] of
           Inl e \<Rightarrow> Uncaught e
         | Inr total_ingredients_extracted \<Rightarrow>
             if total_ingredients_extracted \<noteq> [] then
               (case categorize_and_normalize_ingredients categorized_reply
                       total_ingredients_extracted of
                  Inl e \<Rightarrow> Uncaught e
                | Inr categorized_and_normalized \<Rightarrow>
                    if truthy categorized_and_normalized then
                      (case aggregate_ingredients categorized_and_normalized of
                         Inl e \<Rightarrow> Uncaught e
                       | Inr final_grocery_list \<Rightarrow> Done final_grocery_list)
                    else CategorizationFailure)
             else NoIngredientsExtracted))"

section \<open>The data model of the specification\<close>

text \<open>
  An IngredientEntry is a dict that carries a str under \<^verbatim>\<open>item\<close> and a str under
  \<^verbatim>\<open>quantity\<close>; \<open>entry_fields\<close> reads the two.
\<close>

definition entry :: "string \<Rightarrow> string \<Rightarrow> json" where
  "entry i q = JObj [(''item'', JStr i), (''quantity'', JStr q)]"

fun entry_fields :: "json \<Rightarrow> (string \<times> string) option" where
  "entry_fields (JObj kvs) =
     (case map_of kvs ''item'' of
        Some (JStr i) \<Rightarrow>
          (case map_of kvs ''quantity'' of Some (JStr q) \<Rightarrow> Some (i, q) | _ \<Rightarrow> None)
      | _ \<Rightarrow> None)"
| "entry_fields v = None"

definition is_entry :: "json \<Rightarrow> bool" where
  "is_entry e = (entry_fields e \<noteq> None)"

text \<open>
  A bucket that is present is a list of entries; \<open>bucket_ok\<close> also accepts a dict in which
  the bucket is missing. A CategorizedSet has both buckets.
\<close>

definition bucket_ok :: "json \<Rightarrow> string \<Rightarrow> bool" where
  "bucket_ok j b = (case get j b (JArr []) of Inr (JArr es) \<Rightarrow> list_all is_entry es | _ \<Rightarrow> False)"

definition has_bucket :: "json \<Rightarrow> string \<Rightarrow> bool" where
  "has_bucket j b = (case j of JObj kvs \<Rightarrow> map_of kvs b \<noteq> None | _ \<Rightarrow> False)"

definition is_CategorizedSet :: "json \<Rightarrow> bool" where
  "is_CategorizedSet j =
     (has_bucket j ''pantry'' \<and> bucket_ok j ''pantry'' \<and>
      has_bucket j ''perishables'' \<and> bucket_ok j ''perishables'')"

text \<open>The (item, quantity) pairs of a bucket, in order; none when the bucket is missing.\<close>

definition entries :: "json \<Rightarrow> string \<Rightarrow> (string \<times> string) list" where
  "entries j b =
     (case get j b (JArr []) of Inr (JArr es) \<Rightarrow> List.map_filter entry_fields es | _ \<Rightarrow> [])"

text \<open>The dict of a set whose buckets hold the given pairs, as \<^verbatim>\<open>json.loads\<close> builds it.\<close>

definition bucket_json :: "(string \<times> string) list \<Rightarrow> json" where
  "bucket_json ps = JArr (map (\<lambda>p. entry (fst p) (snd p)) ps)"

definition set_json :: "(string \<times> string) list \<Rightarrow> (string \<times> string) list \<Rightarrow> json" where
  "set_json ps qs = JObj [(''pantry'', bucket_json ps), (''perishables'', bucket_json qs)]"


subsection \<open>The algorithm of section 4.3, in closed form\<close>

definition merge_key :: "string \<times> string \<Rightarrow> string" where
  "merge_key p = lower (fst p)"

definition separator :: string where
  "separator = '' + ''"

text \<open>The elements of a list in the order of their first occurrence.\<close>

fun first_occurrences :: "'a list \<Rightarrow> 'a list" where
  "first_occurrences [] = []"
| "first_occurrences (x # xs) = x # first_occurrences (removeAll x xs)"

text \<open>The quantities recorded under a merge key, in arrival order.\<close>

definition quantities_of :: "string \<Rightarrow> (string \<times> string) list \<Rightarrow> string list" where
  "quantities_of k ps = map snd (filter (\<lambda>p. merge_key p = k) ps)"

definition merged_bucket :: "(string \<times> string) list \<Rightarrow> (string \<times> string) list" where
  "merged_bucket ps =
     map (\<lambda>k. (title k, join separator (quantities_of k ps))) (first_occurrences (map merge_key ps))"

text \<open>The loop of the source on pairs of strings: one round, and all rounds.\<close>

definition merge_pair :: "(string \<times> string) list \<Rightarrow> string \<times> string \<Rightarrow> (string \<times> string) list" where
  "merge_pair d p =
     AList.update (merge_key p)
       (case map_of d (merge_key p) of None \<Rightarrow> snd p | Some old \<Rightarrow> old @ separator @ snd p) d"

text \<open>
  The replies of the generation capability that keep its contract: the extraction gives
  nothing or a list of entries, the categorization nothing or a dict whose buckets are
  lists of entries.
\<close>

definition is_ingredients_reply :: "json \<Rightarrow> bool" where
  "is_ingredients_reply v = (case v of JNull \<Rightarrow> True | JArr es \<Rightarrow> list_all is_entry es | _ \<Rightarrow> False)"

definition is_categorized_reply :: "json \<Rightarrow> bool" where
  "is_categorized_reply v =
     (case v of JNull \<Rightarrow> True | JObj kvs \<Rightarrow> bucket_ok v ''pantry'' \<and> bucket_ok v ''perishables''
      | _ \<Rightarrow> False)"

text \<open>
  What a dish adds to the accumulator when the replies keep the contract: the extracted
  entries if the recipe was found, nothing otherwise.
\<close>

definition contribution :: "dish_run \<Rightarrow> json list" where
  "contribution d =
     (case d of (dish_entry, recipe_content, ingredients_for_dish) \<Rightarrow>
        if truthy recipe_content then (case ingredients_for_dish of JArr es \<Rightarrow> es | _ \<Rightarrow> [])
        else [])"

definition accumulated :: "dish_run list \<Rightarrow> json list" where
  "accumulated dishes = concat (map contribution (filter valid_dish dishes))"

section \<open>Case mapping\<close>






section \<open>The loop in closed form\<close>

lemma set_first_occurrences: "set (first_occurrences xs) = set xs"
  by (induction xs rule: first_occurrences.induct) auto

lemma distinct_first_occurrences: "distinct (first_occurrences xs)"
  by (induction xs rule: first_occurrences.induct) (auto simp: set_first_occurrences)


lemma removeAll_filter: "removeAll x (filter P xs) = filter (\<lambda>k. P k \<and> k \<noteq> x) xs"
  by (induction xs) auto

lemma join_append_head: "join sep ((a @ sep @ b) # qs) = a @ sep @ join sep (b # qs)"
  by (cases qs) simp_all

lemma keys_merge_pair:
  "map fst (merge_pair d p) =
     (if merge_key p \<in> set (map fst d) then map fst d else map fst d @ [merge_key p])"
  by (simp add: merge_pair_def update_keys)

lemma map_of_merge_pair:
  "map_of (merge_pair d p) =
     (map_of d)(merge_key p \<mapsto>
        (case map_of d (merge_key p) of None \<Rightarrow> snd p | Some old \<Rightarrow> old @ separator @ snd p))"
  by (simp add: merge_pair_def update_conv')

lemma keys_merge_all:
  "map fst (foldl merge_pair d ps) =
     map fst d @ first_occurrences (filter (\<lambda>k. k \<notin> set (map fst d)) (map merge_key ps))"
proof (induction ps arbitrary: d)
  case Nil
  show ?case by simp
next
  case (Cons p ps)
  show ?case
  proof (cases "merge_key p \<in> set (map fst d)")
    case True
    then show ?thesis
      using Cons.IH [of "merge_pair d p"] by (simp add: keys_merge_pair)
  next
    case False
    have "removeAll (merge_key p) (filter (\<lambda>k. k \<notin> set (map fst d)) (map merge_key ps)) =
          filter (\<lambda>k. k \<notin> set (map fst d @ [merge_key p])) (map merge_key ps)"
      by (simp add: removeAll_filter conj_commute)
    with False show ?thesis
      using Cons.IH [of "merge_pair d p"] by (simp add: keys_merge_pair)
  qed
qed

lemma map_of_merge_all:
  "map_of (foldl merge_pair d ps) k =
     (case map_of d k of
        None \<Rightarrow> (if quantities_of k ps = [] then None else Some (join separator (quantities_of k ps)))
      | Some old \<Rightarrow> Some (join separator (old # quantities_of k ps)))"
proof (induction ps arbitrary: d)
  case Nil
  show ?case by (simp add: quantities_of_def split: option.split)
next
  case (Cons p ps)
  show ?case
  proof (cases "merge_key p = k")
    case True
    then have q: "quantities_of k (p # ps) = snd p # quantities_of k ps"
      by (simp add: quantities_of_def)
    show ?thesis
      using True Cons.IH [of "merge_pair d p"]
      by (simp add: q map_of_merge_pair join_append_head split: option.split)
  next
    case False
    then have q: "quantities_of k (p # ps) = quantities_of k ps"
      by (simp add: quantities_of_def)
    show ?thesis
      using False Cons.IH [of "merge_pair d p"]
      by (simp add: q map_of_merge_pair split: option.split)
  qed
qed

lemma alist_by_keys:
  "distinct (map fst r) \<Longrightarrow> \<forall>k \<in> set (map fst r). map_of r k = Some (f k) \<Longrightarrow>
   r = map (\<lambda>k. (k, f k)) (map fst r)"
proof (induction r)
  case Nil
  show ?case by simp
next
  case (Cons kv r)
  from Cons.prems have "snd kv = f (fst kv)"
    by (cases kv) simp
  moreover from Cons.prems have "\<forall>k \<in> set (map fst r). map_of r k = Some (f k)"
    by (cases kv) (auto split: if_splits)
  ultimately show ?case
    using Cons by (cases kv) simp
qed

lemma quantities_of_nonempty: "k \<in> set (map merge_key ps) \<Longrightarrow> quantities_of k ps \<noteq> []"
  by (induction ps) (auto simp: quantities_of_def)

lemma merge_all_closed_form:
  "foldl merge_pair [] ps =
     map (\<lambda>k. (k, join separator (quantities_of k ps))) (first_occurrences (map merge_key ps))"
proof -
  let ?r = "foldl merge_pair [] ps"
  have keys: "map fst ?r = first_occurrences (map merge_key ps)"
    using keys_merge_all [of "[]" ps] by simp
  then have "distinct (map fst ?r)"
    by (simp add: distinct_first_occurrences)
  moreover have "\<forall>k \<in> set (map fst ?r). map_of ?r k = Some (join separator (quantities_of k ps))"
    using quantities_of_nonempty [of _ ps]
    by (simp add: keys set_first_occurrences map_of_merge_all)
  ultimately have "?r = map (\<lambda>k. (k, join separator (quantities_of k ps))) (map fst ?r)"
    by (rule alist_by_keys)
  with keys show ?thesis by simp
qed

lemma merged_bucket_fold:
  "merged_bucket ps = map (\<lambda>kv. (title (fst kv), snd kv)) (foldl merge_pair [] ps)"
  by (simp add: merged_bucket_def merge_all_closed_form comp_def)

section \<open>The source loop on well-formed buckets\<close>

lemma entry_fields_getitem:
  assumes "entry_fields e = Some p"
  shows "getitem e ''item'' = Inr (JStr (fst p))" and "getitem e ''quantity'' = Inr (JStr (snd p))"
  using assms by (cases e; auto split: option.splits json.splits)+

lemma entry_fields_entry: "entry_fields (entry i q) = Some (i, q)"
  by (simp add: entry_def)

lemma map_of_apsnd: "map_of (map (apsnd f) d) k = map_option f (map_of d k)"
  by (induction d) auto

lemma update_apsnd: "AList.update k (f v) (map (apsnd f) d) = map (apsnd f) (AList.update k v d)"
  by (induction d) auto

lemma aggregate_item_entry:
  assumes "entry_fields e = Some p"
  shows "aggregate_item (map (apsnd JStr) d) e = Inr (map (apsnd JStr) (merge_pair d p))"
  unfolding aggregate_item_def merge_pair_def merge_key_def separator_def
  using entry_fields_getitem [OF assms]
  by (simp add: map_of_apsnd update_apsnd split: option.split)

lemma aggregate_loop_entries:
  "list_all is_entry es \<Longrightarrow>
   aggregate_loop (map (apsnd JStr) d) es =
     Inr (map (apsnd JStr) (foldl merge_pair d (List.map_filter entry_fields es)))"
proof (induction es arbitrary: d)
  case Nil
  show ?case by simp
next
  case (Cons e es)
  then obtain p where p: "entry_fields e = Some p"
    by (auto simp: is_entry_def)
  with Cons show ?case
    by (simp add: aggregate_item_entry)
qed

lemma final_list_apsnd:
  "JArr (final_list (map (apsnd JStr) d)) = bucket_json (map (\<lambda>kv. (title (fst kv), snd kv)) d)"
  by (simp add: final_list_def bucket_json_def entry_def)

lemma bucket_okD:
  assumes "bucket_ok j b"
  obtains es where "get j b (JArr []) = Inr (JArr es)" and "list_all is_entry es"
    and "entries j b = List.map_filter entry_fields es"
  using assms by (auto simp: bucket_ok_def entries_def split: sum.splits json.splits)

lemma aggregate_ingredients_refines:
  assumes "bucket_ok j ''pantry''" and "bucket_ok j ''perishables''"
  shows "aggregate_ingredients j =
    Inr (set_json (merged_bucket (entries j ''pantry'')) (merged_bucket (entries j ''perishables'')))"
proof -
  from assms(1) obtain ps where ps: "get j ''pantry'' (JArr []) = Inr (JArr ps)"
    "list_all is_entry ps" "entries j ''pantry'' = List.map_filter entry_fields ps"
    by (rule bucket_okD)
  from assms(2) obtain qs where qs: "get j ''perishables'' (JArr []) = Inr (JArr qs)"
    "list_all is_entry qs" "entries j ''perishables'' = List.map_filter entry_fields qs"
    by (rule bucket_okD)
  have loop: "aggregate_loop [] es =
      Inr (map (apsnd JStr) (foldl merge_pair [] (List.map_filter entry_fields es)))"
    if "list_all is_entry es" for es
    using aggregate_loop_entries [OF that, of "[]"] by simp
  show ?thesis
    by (simp add: aggregate_ingredients_def ps qs loop final_list_apsnd set_json_def merged_bucket_fold)
qed

lemma map_filter_entries: "List.map_filter entry_fields (map (\<lambda>p. entry (fst p) (snd p)) ps) = ps"
  by (induction ps) (simp_all add: entry_fields_entry)

lemma entries_set_json:
  "entries (set_json ps qs) ''pantry'' = ps" "entries (set_json ps qs) ''perishables'' = qs"
  by (simp_all add: entries_def set_json_def bucket_json_def map_filter_entries)

lemma list_all_is_entry: "list_all is_entry (map (\<lambda>p. entry (fst p) (snd p)) ps)"
  by (induction ps) (simp_all add: is_entry_def entry_fields_entry)

lemma is_CategorizedSet_set_json: "is_CategorizedSet (set_json ps qs)"
  by (simp add: is_CategorizedSet_def has_bucket_def bucket_ok_def set_json_def bucket_json_def
      list_all_is_entry)

lemma getitem_set_json:
  "getitem (set_json ps qs) ''pantry'' = Inr (bucket_json ps)"
  "getitem (set_json ps qs) ''perishables'' = Inr (bucket_json qs)"
  by (simp_all add: set_json_def)

lemma getitem_entries_empty:
  assumes "getitem j b = Inr (JArr [])"
  shows "entries j b = []"
  using assms by (cases j) (auto simp: entries_def split: option.splits)


section \<open>Properties of a merged bucket\<close>












lemma aggregate_CategorizedSet:
  assumes "is_CategorizedSet j"
  shows "aggregate_ingredients j =
    Inr (set_json (merged_bucket (entries j ''pantry'')) (merged_bucket (entries j ''perishables'')))"
  using assms by (intro aggregate_ingredients_refines) (simp_all add: is_CategorizedSet_def)

section \<open>The run under the contract of the generation capability\<close>

lemma prompt_line_entry:
  assumes "is_entry e"
  shows "\<exists>l. prompt_line e = Inr l"
proof -
  from assms obtain p where "entry_fields e = Some p"
    by (auto simp: is_entry_def)
  from entry_fields_getitem [OF this] show ?thesis
    by (simp add: prompt_line_def)
qed

lemma prompt_lines_entries: "list_all is_entry xs \<Longrightarrow> \<exists>ls. prompt_lines xs = Inr ls"
proof (induction xs)
  case Nil
  show ?case by simp
next
  case (Cons e xs)
  then obtain l ls where "prompt_line e = Inr l" and "prompt_lines xs = Inr ls"
    using prompt_line_entry [of e] by auto
  then show ?case by simp
qed

lemma categorize_entries:
  "list_all is_entry xs \<Longrightarrow> categorize_and_normalize_ingredients c xs = Inr c"
  using prompt_lines_entries [of xs] by (auto simp: categorize_and_normalize_ingredients_def)


lemma dish_step_contract:
  assumes "is_ingredients_reply e"
  shows "dish_loop ((d, r, e) # rest) acc = dish_loop rest (acc @ contribution (d, r, e))"
    and "list_all is_entry (contribution (d, r, e))"
  using assms by (cases e; simp add: is_ingredients_reply_def contribution_def)+

lemma dish_loop_contract:
  "list_all (\<lambda>d. is_ingredients_reply (snd (snd d))) ds \<Longrightarrow>
   dish_loop ds acc = Inr (acc @ concat (map contribution ds))"
proof (induction ds arbitrary: acc)
  case Nil
  show ?case by simp
next
  case (Cons x ds)
  obtain d r e where x: "x = (d, r, e)"
    by (cases x)
  with Cons show ?case
    by (simp add: dish_step_contract(1) del: dish_loop.simps)
qed

lemma contributions_are_entries:
  "list_all (\<lambda>d. is_ingredients_reply (snd (snd d))) ds \<Longrightarrow>
   list_all is_entry (concat (map contribution ds))"
proof (induction ds)
  case Nil
  show ?case by simp
next
  case (Cons x ds)
  obtain d r e where x: "x = (d, r, e)"
    by (cases x)
  with Cons show ?case
    by (simp add: dish_step_contract(2))
qed

lemma contract_filter:
  "list_all (\<lambda>d. is_ingredients_reply (snd (snd d))) ds \<Longrightarrow>
   list_all (\<lambda>d. is_ingredients_reply (snd (snd d))) (filter P ds)"
  by (induction ds) simp_all

lemma run_under_contract:
  assumes "list_all (\<lambda>d. is_ingredients_reply (snd (snd d))) dishes"
  shows "generate_grocery_list dishes c =
    (if filter valid_dish dishes = [] then EmptyInput
     else if accumulated dishes = [] then NoIngredientsExtracted
     else if \<not> truthy c then CategorizationFailure
     else (case aggregate_ingredients c of Inl e \<Rightarrow> Uncaught e | Inr out \<Rightarrow> Done out))"
proof -
  let ?valid = "filter valid_dish dishes"
  have v: "list_all (\<lambda>d. is_ingredients_reply (snd (snd d))) ?valid"
    using assms by (rule contract_filter)
  have loop: "dish_loop ?valid [] = Inr (accumulated dishes)"
    using dish_loop_contract [OF v, of "[]"] by (simp add: accumulated_def)
  have "list_all is_entry (accumulated dishes)"
    using contributions_are_entries [OF v] by (simp add: accumulated_def)
  then have cat: "categorize_and_normalize_ingredients c (accumulated dishes) = Inr c"
    by (rule categorize_entries)
  show ?thesis
    by (simp add: generate_grocery_list_def Let_def loop cat)
qed

lemma aggregate_categorized_reply:
  assumes "is_categorized_reply c" and "truthy c"
  shows "aggregate_ingredients c =
    Inr (set_json (merged_bucket (entries c ''pantry'')) (merged_bucket (entries c ''perishables'')))"
proof -
  from assms have "bucket_ok c ''pantry''" and "bucket_ok c ''perishables''"
    by (cases c; simp add: is_categorized_reply_def)+
  then show ?thesis
    by (rule aggregate_ingredients_refines)
qed

lemma entries_no_bucket: "\<not> has_bucket c b \<Longrightarrow> entries c b = []"
  by (cases c) (auto simp: has_bucket_def entries_def)

section \<open>The claims about the Aggregator\<close>



text \<open>
  C2. Two entries whose items are equal when case is ignored, alone in a bucket, become one
  entry: the item is the title-cased merge key, the quantity is the first quantity, the
  separator \<^verbatim>\<open>" + "\<close> and the second quantity. The witness is the example of the
  specification: Salt, 1 tsp and salt, 2 tsp give Salt, 1 tsp + 2 tsp.
\<close>

theorem merge_two_entries:
  assumes "lower i1 = lower i2"
  shows "aggregate_ingredients (set_json [(i1, q1), (i2, q2)] rest) =
           Inr (set_json [(title (lower i1), q1 @ '' + '' @ q2)] (merged_bucket rest)) \<and>
         aggregate_ingredients (set_json rest [(i1, q1), (i2, q2)]) =
           Inr (set_json (merged_bucket rest) [(title (lower i1), q1 @ '' + '' @ q2)])"
proof -
  have "merged_bucket [(i1, q1), (i2, q2)] = [(title (lower i1), q1 @ '' + '' @ q2)]"
    using assms by (simp add: merged_bucket_def merge_key_def quantities_of_def separator_def)
  then show ?thesis
    by (simp add: aggregate_CategorizedSet is_CategorizedSet_set_json entries_set_json)
qed

theorem merge_two_entries_witness:
  "lower ''Salt'' = lower ''salt'' \<and>
   aggregate_ingredients
     (JObj [(''pantry'', JArr [entry ''Salt'' ''1 tsp'', entry ''salt'' ''2 tsp'']),
            (''perishables'', JArr [])]) =
   Inr (JObj [(''pantry'', JArr [entry ''Salt'' ''1 tsp + 2 tsp'']), (''perishables'', JArr [])])"
proof -
  have h: "lower ''Salt'' = lower ''salt''"
    by code_simp
  have t: "title (lower ''Salt'') = ''Salt''"
    by code_simp
  have m: "merged_bucket [] = []"
    by (simp add: merged_bucket_def)
  have "aggregate_ingredients
     (JObj [(''pantry'', JArr [entry ''Salt'' ''1 tsp'', entry ''salt'' ''2 tsp'']),
            (''perishables'', JArr [])]) =
   Inr (JObj [(''pantry'', JArr [entry ''Salt'' ''1 tsp + 2 tsp'']), (''perishables'', JArr [])])"
    using merge_two_entries [OF h, of "''1 tsp''" "''2 tsp''" "[]"]
    by (simp add: set_json_def bucket_json_def t m)
  with h show ?thesis
    by (rule conjI)
qed








text \<open>
  C7. An empty bucket of a CategorizedSet comes out as an empty bucket, in a result that
  is not an error.
\<close>

theorem empty_bucket:
  assumes "is_CategorizedSet j" and "b = ''pantry'' \<or> b = ''perishables''"
    and "getitem j b = Inr (JArr [])"
  shows "\<exists>out. aggregate_ingredients j = Inr out \<and> getitem out b = Inr (JArr [])"
proof -
  have "merged_bucket (entries j b) = []"
    by (simp add: getitem_entries_empty [OF assms(3)] merged_bucket_def)
  with assms(2) show ?thesis
    by (auto simp: aggregate_CategorizedSet [OF assms(1)] getitem_set_json bucket_json_def)
qed

theorem empty_bucket_witness:
  "is_CategorizedSet (set_json [] [(''egg'', ''2'')]) \<and>
   getitem (set_json [] [(''egg'', ''2'')]) ''pantry'' = Inr (JArr []) \<and>
   (\<exists>out. aggregate_ingredients (set_json [] [(''egg'', ''2'')]) = Inr out \<and>
      getitem out ''pantry'' = Inr (JArr []))"
proof -
  let ?j = "set_json [] [(''egg'', ''2'')]"
  have h1: "is_CategorizedSet ?j"
    by code_simp
  have h2: "''pantry'' = ''pantry'' \<or> ''pantry'' = ''perishables''"
    by simp
  have h3: "getitem ?j ''pantry'' = Inr (JArr [])"
    by code_simp
  from h1 h3 empty_bucket [OF h1 h2 h3] show ?thesis
    by simp
qed





section \<open>The claims about the run\<close>

text \<open>
  C4, as stated, fails: a payload of the Categorizer that has the pantry bucket and lacks
  the perishables bucket is a non-empty dict, so the handler passes it to the Aggregator
  and the run ends with a grocery list whose perishables bucket is empty.
\<close>

theorem missing_bucket_accepted:
  "\<not> has_bucket (JObj [(''pantry'', JArr [entry ''salt'' ''1 tsp''])]) ''perishables'' \<and>
   generate_grocery_list
     [(\<lparr>name = ''soup'', servings = 2\<rparr>, JStr ''boil'', JArr [entry ''salt'' ''1 tsp''])]
     (JObj [(''pantry'', JArr [entry ''salt'' ''1 tsp''])]) =
   Done (JObj [(''pantry'', JArr [entry ''Salt'' ''1 tsp'']), (''perishables'', JArr [])])"
  by code_simp

text \<open>
  C4, amended. When the extraction replies keep the contract, the run ends in
  CategorizationFailure exactly when ingredients were accumulated and the result of the
  Categorizer is \<^verbatim>\<open>None\<close> or empty (a dict with no field has neither bucket). A non-empty
  result with list buckets gives a grocery list in which a missing bucket is empty.
\<close>

theorem categorization_failure_iff:
  assumes "list_all (\<lambda>d. is_ingredients_reply (snd (snd d))) dishes"
  shows "(generate_grocery_list dishes c = CategorizationFailure \<longleftrightarrow>
            accumulated dishes \<noteq> [] \<and> \<not> truthy c) \<and>
         (accumulated dishes \<noteq> [] \<and> truthy c \<and> is_categorized_reply c \<longrightarrow>
            (\<exists>out. generate_grocery_list dishes c = Done out \<and>
               (\<not> has_bucket c ''pantry'' \<longrightarrow> getitem out ''pantry'' = Inr (JArr [])) \<and>
               (\<not> has_bucket c ''perishables'' \<longrightarrow> getitem out ''perishables'' = Inr (JArr []))))"
proof -
  have e: "filter valid_dish dishes = [] \<Longrightarrow> accumulated dishes = []"
    by (simp add: accumulated_def)
  have m: "\<not> has_bucket c b \<Longrightarrow> bucket_json (merged_bucket (entries c b)) = JArr []" for b
    by (simp add: entries_no_bucket merged_bucket_def bucket_json_def)
  show ?thesis
    using e by (auto simp: run_under_contract [OF assms] aggregate_categorized_reply
        getitem_set_json m split: sum.splits)
qed

theorem categorization_failure_iff_witness:
  "list_all (\<lambda>d. is_ingredients_reply (snd (snd d)))
     [(\<lparr>name = ''soup'', servings = 2\<rparr>, JStr ''boil'', JArr [entry ''salt'' ''1 tsp''])] \<and>
   accumulated [(\<lparr>name = ''soup'', servings = 2\<rparr>, JStr ''boil'', JArr [entry ''salt'' ''1 tsp''])] \<noteq> [] \<and>
   \<not> truthy (JObj []) \<and>
   generate_grocery_list
     [(\<lparr>name = ''soup'', servings = 2\<rparr>, JStr ''boil'', JArr [entry ''salt'' ''1 tsp''])]
     (JObj []) = CategorizationFailure"
proof -
  let ?dishes = "[(\<lparr>name = ''soup'', servings = 2\<rparr>, JStr ''boil'', JArr [entry ''salt'' ''1 tsp''])]"
  have h: "list_all (\<lambda>d. is_ingredients_reply (snd (snd d))) ?dishes"
    by code_simp
  have a: "accumulated ?dishes \<noteq> []"
    by code_simp
  have t: "\<not> truthy (JObj [])"
    by simp
  from categorization_failure_iff [OF h, of "JObj []"] a t
  have "generate_grocery_list ?dishes (JObj []) = CategorizationFailure"
    by blast
  with h a t show ?thesis
    by blast
qed



end
